theory Spec2Isabelle
  imports Main "HOL-Library.AList"
begin

section \<open>evstate: the event-based finite state machine of \<^verbatim>\<open>src/index.js\<close>\<close>

text \<open>
  The class \<^verbatim>\<open>FSM\<close> is embedded with explicit state passing. State names are strings.
  The transition table the caller supplies is an association list of its own properties,
  in property order: reading a property is \<open>map_of\<close> (\<open>None\<close> is \<^verbatim>\<open>undefined\<close>),
  \<^verbatim>\<open>Object.keys\<close> is \<open>map fst\<close>; what a table inherits from its prototype is not
  modelled. The object \<^verbatim>\<open>this._transitions\<close>, which the class creates as \<^verbatim>\<open>{}\<close> and keys by
  state names, is modelled with its own properties and its prototype, since two state names
  reach \<^verbatim>\<open>Object.prototype\<close> through it: \<^verbatim>\<open>hasOwnProperty\<close>, the method the class calls on
  the object, and \<^verbatim>\<open>__proto__\<close>, the accessor of the prototype.

  A handler is a JavaScript function. Its identity (what \<^verbatim>\<open>!==\<close> compares) is a value of
  the type \<open>'h\<close> (\<open>'g\<close> for error handlers); what calling it does is given by a
  semantics function, a parameter of every operation that calls handlers: the call reads
  the engine, takes its argument and the outside world \<open>'w\<close>, and either returns or throws,
  leaving a new world in both cases. Handlers do not call back into the engine or assign
  its fields. Every call that the engine makes is recorded in a list of events, so that
  the order of invocation can be stated.
\<close>

subsection \<open>Values, errors and results\<close>

type_synonym state_name = string

text \<open>What a \<^verbatim>\<open>throw\<close> carries: the engine's \<^verbatim>\<open>new Error(msg)\<close>, the \<^verbatim>\<open>TypeError\<close> of the
  runtime (reading a property of \<^verbatim>\<open>null\<close> or \<^verbatim>\<open>undefined\<close>), or any other value \<open>'x\<close>.\<close>

datatype 'x js_error = TypeError | Error string | Other 'x

datatype ('r, 'x) completion = Returned 'r | Threw "'x js_error"

text \<open>The two values \<^verbatim>\<open>emit\<close> returns: \<^verbatim>\<open>this\<close> and \<^verbatim>\<open>false\<close>.\<close>

datatype emit_value = This | JsFalse

datatype ('h, 'g, 'a) event = HandlerCall 'h 'a | ErrorHandlerCall 'g string

text \<open>The object \<^verbatim>\<open>this._transitions\<close>: its own properties, each holding an array of
  handlers, and its prototype, which is \<^verbatim>\<open>Object.prototype\<close> (\<open>None\<close>) until an assignment to
  \<^verbatim>\<open>__proto__\<close> makes it an array of handlers.\<close>

record 'h handler_table =
  ownProperties :: "(state_name \<times> 'h list) list"
  prototypeArray :: "'h list option"

record ('h, 'g) FSM =
  allowedTransitions :: "(state_name \<times> state_name list option) list"
  currentState :: state_name
  errorHandler :: "'g option"
  knownStates :: "state_name list"
  transitions :: "'h handler_table"

type_synonym ('h, 'g, 'a, 'w, 'x) handler_sem =
  "'h \<Rightarrow> ('h, 'g) FSM \<Rightarrow> 'a \<Rightarrow> 'w \<Rightarrow> (unit, 'x) completion \<times> 'w"

type_synonym ('h, 'g, 'w, 'x) error_handler_sem =
  "'g \<Rightarrow> ('h, 'g) FSM \<Rightarrow> string \<Rightarrow> 'w \<Rightarrow> (unit, 'x) completion \<times> 'w"

subsection \<open>The class\<close>

text \<open>\<^verbatim>\<open>static ANY = 'anyStateChange'\<close>\<close>

definition ANY :: state_name where
  "ANY = ''anyStateChange''"

text \<open>\<^verbatim>\<open>Array.prototype.indexOf\<close>: the first index of the element, \<open>-1\<close> when it is absent.\<close>

fun indexOf :: "'a list \<Rightarrow> 'a \<Rightarrow> int" where
  "indexOf [] x = - 1"
| "indexOf (y # ys) x =
     (if y = x then 0 else (if indexOf ys x < 0 then - 1 else indexOf ys x + 1))"

text \<open>Reading \<^verbatim>\<open>this._transitions[k]\<close>: an own property wins; otherwise \<^verbatim>\<open>__proto__\<close> reads the
  prototype. The result is the array found, or \<open>None\<close> when what is found is not an array
  (\<^verbatim>\<open>undefined\<close>, \<^verbatim>\<open>Object.prototype\<close> itself or a value inherited from the prototype):
  pushing onto it and iterating over it throw a \<^verbatim>\<open>TypeError\<close>.\<close>

definition get_property :: "'h handler_table \<Rightarrow> state_name \<Rightarrow> 'h list option" where
  "get_property t k =
     (case map_of (ownProperties t) k of
        Some v \<Rightarrow> Some v
      | None \<Rightarrow> (if k = ''__proto__'' then prototypeArray t else None))"

text \<open>The assignment \<^verbatim>\<open>this._transitions[k] = v\<close> of an array: an own property is
  overwritten in place; otherwise the key \<^verbatim>\<open>__proto__\<close> runs the setter of
  \<^verbatim>\<open>Object.prototype\<close>, which replaces the prototype and creates no property, and any other
  key becomes a new own property, the last one.\<close>

definition set_property :: "'h handler_table \<Rightarrow> state_name \<Rightarrow> 'h list \<Rightarrow> 'h handler_table" where
  "set_property t k v =
     (if map_of (ownProperties t) k = None \<and> k = ''__proto__''
      then t\<lparr>prototypeArray := Some v\<rparr>
      else t\<lparr>ownProperties := AList.update k v (ownProperties t)\<rparr>)"

text \<open>The call \<^verbatim>\<open>this._transitions.hasOwnProperty(k)\<close>: the method is looked up on the object
  itself first, so an own property named \<^verbatim>\<open>hasOwnProperty\<close>, which holds an array, is what
  gets called, and calling an array throws a \<^verbatim>\<open>TypeError\<close>. Otherwise the method of
  \<^verbatim>\<open>Object.prototype\<close> is found (an array as prototype does not hide it) and tells whether
  \<open>k\<close> is an own property.\<close>

definition hasOwnProperty :: "'h handler_table \<Rightarrow> state_name \<Rightarrow> 'x js_error + bool" where
  "hasOwnProperty t k =
     (if map_of (ownProperties t) ''hasOwnProperty'' \<noteq> None then Inl TypeError
      else Inr (map_of (ownProperties t) k \<noteq> None))"

text \<open>The constructor's loop \<^verbatim>\<open>for (let stateName of this._knownStates) this._transitions[stateName] = []\<close>.\<close>

fun init_transitions :: "state_name list \<Rightarrow> 'h handler_table \<Rightarrow> 'h handler_table" where
  "init_transitions [] t = t"
| "init_transitions (stateName # rest) t = init_transitions rest (set_property t stateName [])"

definition FSM_constructor ::
  "(state_name \<times> state_name list option) list \<Rightarrow> state_name \<Rightarrow> ('h, 'g) FSM" where
  "FSM_constructor table initialState =
     \<lparr> allowedTransitions = table,
       currentState = initialState,
       errorHandler = None,
       knownStates = map fst table,
       transitions =
         init_transitions (map fst table)
           (set_property \<lparr> ownProperties = [], prototypeArray = None \<rparr> ANY []) \<rparr>"

definition isValid :: "('h, 'g) FSM \<Rightarrow> state_name \<Rightarrow> bool" where
  "isValid fsm desiredState \<longleftrightarrow> indexOf (knownStates fsm) desiredState \<ge> 0"

text \<open>\<^verbatim>\<open>this._allowedTransitions[this.currentState].indexOf(desiredState) >= 0\<close>: when the
  property is missing (\<^verbatim>\<open>undefined\<close>) or holds \<^verbatim>\<open>null\<close>, reading \<^verbatim>\<open>indexOf\<close> of it throws
  a \<^verbatim>\<open>TypeError\<close>.\<close>

definition canTransitionTo :: "('h, 'g) FSM \<Rightarrow> state_name \<Rightarrow> 'x js_error + bool" where
  "canTransitionTo fsm desiredState =
     (case map_of (allowedTransitions fsm) (currentState fsm) of
        None \<Rightarrow> Inl TypeError
      | Some None \<Rightarrow> Inl TypeError
      | Some (Some outgoing) \<Rightarrow> Inr (indexOf outgoing desiredState \<ge> 0))"

text \<open>\<^verbatim>\<open>on\<close> returns \<^verbatim>\<open>this\<close>: \<open>Inr\<close> carries the engine after the mutation; every throw
  comes before the first mutation. \<^verbatim>\<open>push\<close> changes the array where it is, in an own property
  or in the prototype.\<close>

definition on :: "('h, 'g) FSM \<Rightarrow> state_name \<Rightarrow> 'h \<Rightarrow> 'x js_error + ('h, 'g) FSM" where
  "on fsm desiredState handler =
     (if desiredState \<noteq> ANY \<and> \<not> isValid fsm desiredState then
        Inl (Error (''Unable to hook up handler to unknown state '' @ desiredState @ ''!''))
      else
        (case hasOwnProperty (transitions fsm) desiredState of
           Inl e \<Rightarrow> Inl e
         | Inr present \<Rightarrow>
             let t = (if \<not> present then set_property (transitions fsm) desiredState []
                      else transitions fsm)
             in (case get_property t desiredState of
                   None \<Rightarrow> Inl TypeError
                 | Some hs \<Rightarrow>
                     Inr (fsm\<lparr>transitions := set_property t desiredState (hs @ [handler])\<rparr>))))"

text \<open>The loop of \<^verbatim>\<open>off\<close>: every existing handler that is not the given one is pushed onto
  \<^verbatim>\<open>revisedHandlers\<close>.\<close>

fun revise :: "'h list \<Rightarrow> 'h \<Rightarrow> 'h list \<Rightarrow> 'h list" where
  "revise [] handler revisedHandlers = revisedHandlers"
| "revise (existingHandler # rest) handler revisedHandlers =
     revise rest handler
       (if existingHandler \<noteq> handler then revisedHandlers @ [existingHandler]
        else revisedHandlers)"

definition off :: "('h, 'g) FSM \<Rightarrow> state_name \<Rightarrow> 'h \<Rightarrow> 'x js_error + ('h, 'g) FSM" where
  "off fsm desiredState handler =
     (if desiredState \<noteq> ANY \<and> \<not> isValid fsm desiredState then
        Inl (Error (''Unable to remove handler from unknown state '' @ desiredState @ ''!''))
      else
        (case hasOwnProperty (transitions fsm) desiredState of
           Inl e \<Rightarrow> Inl e
         | Inr present \<Rightarrow>
             let t = (if \<not> present then set_property (transitions fsm) desiredState []
                      else transitions fsm)
             in (case get_property t desiredState of
                   None \<Rightarrow> Inl TypeError
                 | Some hs \<Rightarrow>
                     Inr (fsm\<lparr>transitions := set_property t desiredState (revise hs handler [])\<rparr>))))"

text \<open>\<^verbatim>\<open>onError\<close> stores the function it is given (\<open>None\<close> is the \<^verbatim>\<open>null\<close> the constructor
  puts there).\<close>

definition onError :: "('h, 'g) FSM \<Rightarrow> 'g \<Rightarrow> ('h, 'g) FSM" where
  "onError fsm handler = fsm\<lparr>errorHandler := Some handler\<rparr>"

text \<open>\<^verbatim>\<open>handleError\<close>: the result is how the call completed, the world afterwards and the
  calls made.\<close>

definition handleError ::
  "('h, 'g, 'w, 'x) error_handler_sem \<Rightarrow> ('h, 'g) FSM \<Rightarrow> string \<Rightarrow> 'w
     \<Rightarrow> (unit, 'x) completion \<times> 'w \<times> ('h, 'g, 'a) event list" where
  "handleError esem fsm msg w =
     (case errorHandler fsm of
        None \<Rightarrow> (Threw (Error (''No error handlers present: '' @ msg)), w, [])
      | Some g \<Rightarrow> (case esem g fsm msg w of (c, w') \<Rightarrow> (c, w', [ErrorHandlerCall g msg])))"

text \<open>The two \<^verbatim>\<open>for ... of\<close> loops of \<^verbatim>\<open>emit\<close>: each handler is called with the arguments; a
  throw ends the loop with the world as the throwing handler left it.\<close>

fun call_handlers ::
  "('h, 'g, 'a, 'w, 'x) handler_sem \<Rightarrow> ('h, 'g) FSM \<Rightarrow> 'h list \<Rightarrow> 'a \<Rightarrow> 'w
     \<Rightarrow> (unit, 'x) completion \<times> 'w \<times> ('h, 'g, 'a) event list" where
  "call_handlers sem fsm [] args w = (Returned (), w, [])"
| "call_handlers sem fsm (h # hs) args w =
     (case sem h fsm args w of
        (Threw e, w') \<Rightarrow> (Threw e, w', [HandlerCall h args])
      | (Returned u, w') \<Rightarrow>
          (case call_handlers sem fsm hs args w' of
             (c, w'', evs) \<Rightarrow> (c, w'', HandlerCall h args # evs)))"

text \<open>\<^verbatim>\<open>emit\<close>: the result is how the call completed (\<^verbatim>\<open>this\<close>, \<^verbatim>\<open>false\<close> or a throw), the
  engine and the world afterwards, and the calls made, in order. The \<^verbatim>\<open>catch\<close> clause
  rethrows what it caught.\<close>

definition emit ::
  "('h, 'g, 'a, 'w, 'x) handler_sem \<Rightarrow> ('h, 'g, 'w, 'x) error_handler_sem \<Rightarrow> ('h, 'g) FSM
     \<Rightarrow> state_name \<Rightarrow> 'a \<Rightarrow> 'w
     \<Rightarrow> (emit_value, 'x) completion \<times> ('h, 'g) FSM \<times> 'w \<times> ('h, 'g, 'a) event list" where
  "emit sem esem fsm desiredState args w =
     (if \<not> isValid fsm desiredState then
        (case handleError esem fsm (''Invalid state requested: '' @ desiredState) w of
           (Threw e, w', evs) \<Rightarrow> (Threw e, fsm, w', evs)
         | (Returned u, w', evs) \<Rightarrow> (Returned JsFalse, fsm, w', evs))
      else
        (case canTransitionTo fsm desiredState of
           Inl e \<Rightarrow> (Threw e, fsm, w, [])
         | Inr False \<Rightarrow>
             (case handleError esem fsm
                     (''Invalid transition from '' @ currentState fsm @ '' requested: '' @ desiredState) w of
                (Threw e, w', evs) \<Rightarrow> (Threw e, fsm, w', evs)
              | (Returned u, w', evs) \<Rightarrow> (Returned JsFalse, fsm, w', evs))
         | Inr True \<Rightarrow>
             (case get_property (transitions fsm) ANY of
                None \<Rightarrow> (Threw TypeError, fsm, w, [])
              | Some anyHandlers \<Rightarrow>
                  (case call_handlers sem fsm anyHandlers args w of
                     (Threw e, w1, evs1) \<Rightarrow> (Threw e, fsm, w1, evs1)
                   | (Returned u, w1, evs1) \<Rightarrow>
                       (case get_property (transitions fsm) desiredState of
                          None \<Rightarrow> (Threw TypeError, fsm, w1, evs1)
                        | Some transitionHandlers \<Rightarrow>
                            (case call_handlers sem fsm transitionHandlers args w1 of
                               (Threw e, w2, evs2) \<Rightarrow> (Threw e, fsm, w2, evs1 @ evs2)
                             | (Returned u, w2, evs2) \<Rightarrow>
                                 (Returned This, fsm\<lparr>currentState := desiredState\<rparr>, w2,
                                  evs1 @ evs2)))))))"

subsection \<open>Reading the registry, the engine's invariant, and callers\<close>

text \<open>\<^verbatim>\<open>this._transitions[state]\<close> as a caller (and the tests) read it: the handler sequence of
  a state, empty when the property is missing.\<close>

definition handlers :: "('h, 'g) FSM \<Rightarrow> state_name \<Rightarrow> 'h list" where
  "handlers fsm s = (case get_property (transitions fsm) s of None \<Rightarrow> [] | Some hs \<Rightarrow> hs)"

text \<open>What the constructor establishes and every method keeps: the known states are the
  table's keys, and the registry has an entry for \<open>ANY\<close> and for every known state.\<close>

definition engine_inv :: "('h, 'g) FSM \<Rightarrow> bool" where
  "engine_inv fsm \<longleftrightarrow>
     knownStates fsm = map fst (allowedTransitions fsm) \<and>
     get_property (transitions fsm) ANY \<noteq> None \<and>
     list_all (\<lambda>s. get_property (transitions fsm) s \<noteq> None) (knownStates fsm)"

text \<open>A caller's sequence of method calls on one engine. A call that throws leaves the
  engine as the method left it, and the caller goes on.\<close>

datatype ('h, 'g, 'a) method_call =
  On state_name 'h | Off state_name 'h | OnError 'g | Emit state_name 'a

fun perform ::
  "('h, 'g, 'a, 'w, 'x) handler_sem \<Rightarrow> ('h, 'g, 'w, 'x) error_handler_sem
     \<Rightarrow> ('h, 'g, 'a) method_call \<Rightarrow> ('h, 'g) FSM \<times> 'w \<Rightarrow> ('h, 'g) FSM \<times> 'w" where
  "perform sem esem (On s h) (fsm, w) =
     (case (on fsm s h :: 'x js_error + ('h, 'g) FSM) of Inl e \<Rightarrow> (fsm, w) | Inr fsm' \<Rightarrow> (fsm', w))"
| "perform sem esem (Off s h) (fsm, w) =
     (case (off fsm s h :: 'x js_error + ('h, 'g) FSM) of Inl e \<Rightarrow> (fsm, w) | Inr fsm' \<Rightarrow> (fsm', w))"
| "perform sem esem (OnError g) (fsm, w) = (onError fsm g, w)"
| "perform sem esem (Emit s args) (fsm, w) =
     (case emit sem esem fsm s args w of (c, fsm', w', evs) \<Rightarrow> (fsm', w'))"

fun perform_all ::
  "('h, 'g, 'a, 'w, 'x) handler_sem \<Rightarrow> ('h, 'g, 'w, 'x) error_handler_sem
     \<Rightarrow> ('h, 'g, 'a) method_call list \<Rightarrow> ('h, 'g) FSM \<times> 'w \<Rightarrow> ('h, 'g) FSM \<times> 'w" where
  "perform_all sem esem [] st = st"
| "perform_all sem esem (c # cs) st = perform_all sem esem cs (perform sem esem c st)"

subsection \<open>Concrete engines and handlers\<close>

text \<open>The transition table of the tests and of the README.\<close>

definition workflow :: "(state_name \<times> state_name list option) list" where
  "workflow =
     [(''draft'', Some [''inReview'']),
      (''inReview'', Some [''changesNeeded'', ''approved'']),
      (''changesNeeded'', Some [''inReview'', ''approved'']),
      (''approved'', Some [''draft'', ''scheduled'', ''published'']),
      (''scheduled'', Some [''draft'', ''published'']),
      (''published'', None)]"

text \<open>Handlers are numbered; the world is a log of strings. A handler appends the engine's
  current state to the log; handler 13 then throws its argument. An error handler appends
  the message it receives; error handler 13 throws instead.\<close>

definition sample_sem :: "(nat, nat, nat, string list, nat) handler_sem" where
  "sample_sem h fsm args w =
     (if h = 13 then (Threw (Other args), w @ [currentState fsm])
      else (Returned (), w @ [currentState fsm]))"

definition sample_esem :: "(nat, nat, string list, nat) error_handler_sem" where
  "sample_esem g fsm msg w =
     (if g = 13 then (Threw (Other 0), w) else (Returned (), w @ [msg]))"

definition draft_engine :: "(nat, nat) FSM" where
  "draft_engine = FSM_constructor workflow ''draft''"

text \<open>An engine with handlers: 7 on every transition; 1, 2 and 1 again on \<^verbatim>\<open>inReview\<close>;
  error handler 5. Then the same with the throwing handler 13 between 1 and 2.\<close>

definition registered_engine :: "(nat, nat) FSM" where
  "registered_engine =
     fst (perform_all sample_sem sample_esem
            [On ANY 7, On ''inReview'' 1, On ''inReview'' 2, On ''inReview'' 1, OnError 5]
            (draft_engine, []))"

definition throwing_engine :: "(nat, nat) FSM" where
  "throwing_engine =
     fst (perform_all sample_sem sample_esem
            [On ANY 7, On ''inReview'' 1, On ''inReview'' 13, On ''inReview'' 2, OnError 5]
            (draft_engine, []))"

text \<open>Handlers that record, in the world, who was called and with which arguments.\<close>

definition recording_sem :: "(nat, nat, nat, (nat \<times> nat) list, nat) handler_sem" where
  "recording_sem h fsm args w = (Returned (), w @ [(h, args)])"

definition recording_esem :: "(nat, nat, (nat \<times> nat) list, nat) error_handler_sem" where
  "recording_esem g fsm msg w = (Returned (), w)"

text \<open>A table with a state that has the name of the wildcard key, and handler 1 registered
  once, under the wildcard key.\<close>

definition collision_table :: "(state_name \<times> state_name list option) list" where
  "collision_table = [(''a'', Some [''anyStateChange'']), (''anyStateChange'', Some [''a''])]"

definition collision_engine :: "(nat, nat) FSM" where
  "collision_engine =
     fst (perform_all recording_sem recording_esem [On ANY 1]
            (FSM_constructor collision_table ''a'', []))"

text \<open>A table with a state named \<^verbatim>\<open>hasOwnProperty\<close>, and one with a state named \<^verbatim>\<open>__proto__\<close>
  (an own property of the table, as \<^verbatim>\<open>JSON.parse\<close> or a computed key makes it), the latter
  with handler 1 registered under that state.\<close>

definition shadow_table :: "(state_name \<times> state_name list option) list" where
  "shadow_table = [(''hasOwnProperty'', Some [''a'']), (''a'', Some [''hasOwnProperty''])]"

definition shadow_engine :: "(nat, nat) FSM" where
  "shadow_engine = FSM_constructor shadow_table ''a''"

definition proto_table :: "(state_name \<times> state_name list option) list" where
  "proto_table = [(''__proto__'', Some [''a'']), (''a'', Some [''__proto__''])]"

definition proto_engine :: "(nat, nat) FSM" where
  "proto_engine =
     fst (perform_all sample_sem sample_esem [On ''__proto__'' 1]
            (FSM_constructor proto_table ''a'', []))"

section \<open>Lemmas\<close>

subsection \<open>Facts about the building blocks\<close>

lemma indexOf_lower: "indexOf xs x \<ge> - 1"
  by (induction xs) auto

lemma indexOf_found: "indexOf xs x \<ge> 0 \<longleftrightarrow> x \<in> set xs"
  by (induction xs) auto

lemma isValid_known: "isValid fsm s \<longleftrightarrow> s \<in> set (knownStates fsm)"
  by (simp add: isValid_def indexOf_found)

lemma canTransitionTo_listed:
  "map_of (allowedTransitions fsm) (currentState fsm) = Some (Some outgoing)
     \<Longrightarrow> canTransitionTo fsm t = Inr (t \<in> set outgoing)"
  by (simp add: canTransitionTo_def indexOf_found)

lemma revise_filter: "revise hs h acc = acc @ filter (\<lambda>e. e \<noteq> h) hs"
  by (induction hs arbitrary: acc) auto

lemma get_set_property:
  "get_property (set_property t k v) k' = (if k' = k then Some v else get_property t k')"
  by (auto simp: get_property_def set_property_def update_conv' split: option.splits)

lemma set_set_property: "set_property (set_property t k u) k v = set_property t k v"
  by (auto simp: set_property_def update_conv')

lemma set_property_same: "get_property t k = Some v \<Longrightarrow> set_property t k v = t"
  by (auto simp: get_property_def set_property_def update_triv split: option.splits)

lemma get_init_transitions:
  "get_property (init_transitions ks t) s = (if s \<in> set ks then Some [] else get_property t s)"
  by (induction ks arbitrary: t) (auto simp: get_set_property)

lemma engine_inv_constructor: "engine_inv (FSM_constructor table initialState)"
  by (simp add: engine_inv_def FSM_constructor_def get_init_transitions get_set_property
                list_all_iff)

text \<open>What \<^verbatim>\<open>on\<close> and \<^verbatim>\<open>off\<close> do, case by case: the refusal of an unknown state, the
  \<^verbatim>\<open>TypeError\<close> of a shadowed \<^verbatim>\<open>hasOwnProperty\<close>, and otherwise the new sequence, built from
  the old one when the state is an own property and from the empty one when it is not.\<close>

lemma get_property_own:
  "map_of (ownProperties t) k = Some v \<Longrightarrow> get_property t k = Some v"
  by (simp add: get_property_def)

lemma registry_step:
  assumes "map_of (ownProperties (transitions fsm)) ''hasOwnProperty'' = None"
  shows "(case hasOwnProperty (transitions fsm) s of
            Inl e \<Rightarrow> Inl e
          | Inr present \<Rightarrow>
              let t = (if \<not> present then set_property (transitions fsm) s []
                       else transitions fsm)
              in (case get_property t s of
                    None \<Rightarrow> Inl TypeError
                  | Some hs \<Rightarrow> Inr (fsm\<lparr>transitions := set_property t s (f hs)\<rparr>)))
         = Inr (fsm\<lparr>transitions :=
                  set_property (transitions fsm) s
                    (f (if map_of (ownProperties (transitions fsm)) s = None then []
                        else handlers fsm s))\<rparr>)"
proof (cases "map_of (ownProperties (transitions fsm)) s")
  case None
  with assms show ?thesis
    by (simp add: hasOwnProperty_def get_set_property set_set_property)
next
  case (Some v)
  then have "get_property (transitions fsm) s = Some v"
    by (rule get_property_own)
  with assms Some show ?thesis
    by (simp add: hasOwnProperty_def handlers_def)
qed

lemma on_cases:
  "on fsm s h =
     (if s \<noteq> ANY \<and> \<not> isValid fsm s
      then Inl (Error (''Unable to hook up handler to unknown state '' @ s @ ''!''))
      else if map_of (ownProperties (transitions fsm)) ''hasOwnProperty'' \<noteq> None
      then Inl TypeError
      else Inr (fsm\<lparr>transitions :=
                  set_property (transitions fsm) s
                    ((if map_of (ownProperties (transitions fsm)) s = None then []
                      else handlers fsm s) @ [h])\<rparr>))"
proof (cases "s \<noteq> ANY \<and> \<not> isValid fsm s")
  case True
  then show ?thesis by (simp add: on_def)
next
  case ok: False
  show ?thesis
  proof (cases "map_of (ownProperties (transitions fsm)) ''hasOwnProperty'' = None")
    case True
    from registry_step [OF True, of s "\<lambda>hs. hs @ [h]"] ok True show ?thesis
      unfolding on_def by simp
  next
    case False
    with ok show ?thesis
      unfolding on_def by (simp add: hasOwnProperty_def)
  qed
qed

lemma off_cases:
  "off fsm s h =
     (if s \<noteq> ANY \<and> \<not> isValid fsm s
      then Inl (Error (''Unable to remove handler from unknown state '' @ s @ ''!''))
      else if map_of (ownProperties (transitions fsm)) ''hasOwnProperty'' \<noteq> None
      then Inl TypeError
      else Inr (fsm\<lparr>transitions :=
                  set_property (transitions fsm) s
                    (filter (\<lambda>e. e \<noteq> h)
                       (if map_of (ownProperties (transitions fsm)) s = None then []
                        else handlers fsm s))\<rparr>))"
proof (cases "s \<noteq> ANY \<and> \<not> isValid fsm s")
  case True
  then show ?thesis by (simp add: off_def)
next
  case ok: False
  show ?thesis
  proof (cases "map_of (ownProperties (transitions fsm)) ''hasOwnProperty'' = None")
    case True
    from registry_step [OF True, of s "\<lambda>hs. revise hs h []"] ok True show ?thesis
      unfolding off_def by (simp add: revise_filter)
  next
    case False
    with ok show ?thesis
      unfolding off_def by (simp add: hasOwnProperty_def)
  qed
qed

lemma handlers_update:
  "handlers (fsm\<lparr>transitions := set_property (transitions fsm) s hs\<rparr>) s' =
     (if s' = s then hs else handlers fsm s')"
  by (simp add: handlers_def get_set_property)

lemma engine_inv_update:
  "engine_inv fsm \<Longrightarrow> engine_inv (fsm\<lparr>transitions := set_property (transitions fsm) s hs\<rparr>)"
  by (auto simp: engine_inv_def get_set_property list_all_iff)

lemma engine_inv_on: "engine_inv fsm \<Longrightarrow> on fsm s h = Inr fsm' \<Longrightarrow> engine_inv fsm'"
  by (auto simp: on_cases engine_inv_update split: if_splits)

lemma engine_inv_off: "engine_inv fsm \<Longrightarrow> off fsm s h = Inr fsm' \<Longrightarrow> engine_inv fsm'"
  by (auto simp: off_cases engine_inv_update split: if_splits)

lemma engine_inv_onError: "engine_inv fsm \<Longrightarrow> engine_inv (onError fsm g)"
  by (auto simp: engine_inv_def onError_def)

lemma engine_inv_currentState: "engine_inv fsm \<Longrightarrow> engine_inv (fsm\<lparr>currentState := s\<rparr>)"
  by (auto simp: engine_inv_def)

subsection \<open>The handler loop\<close>

lemma call_handlers_append:
  "call_handlers sem fsm (xs @ ys) args w =
     (case call_handlers sem fsm xs args w of
        (Threw e, w', evs) \<Rightarrow> (Threw e, w', evs)
      | (Returned u, w', evs) \<Rightarrow>
          (case call_handlers sem fsm ys args w' of (c, w'', evs') \<Rightarrow> (c, w'', evs @ evs')))"
  by (induction xs arbitrary: w) (auto split: prod.splits completion.splits)

lemma call_handlers_returned_events:
  "call_handlers sem fsm hs args w = (Returned u, w', evs)
     \<Longrightarrow> evs = map (\<lambda>h. HandlerCall h args) hs"
  by (induction hs arbitrary: w evs) (auto split: prod.splits completion.splits)

lemma call_handlers_events:
  "call_handlers sem fsm hs args w = (c, w', evs)
     \<Longrightarrow> \<exists>n. evs = map (\<lambda>h. HandlerCall h args) (take n hs)"
proof (induction hs arbitrary: w evs c w')
  case Nil
  then show ?case by simp
next
  case (Cons h hs)
  show ?case
  proof (cases "sem h fsm args w")
    case (Pair r w1)
    show ?thesis
    proof (cases r)
      case (Threw e)
      with Pair Cons.prems have "evs = map (\<lambda>h. HandlerCall h args) (take 1 (h # hs))"
        by simp
      then show ?thesis by blast
    next
      case (Returned u)
      obtain c2 w2 evs2 where rest: "call_handlers sem fsm hs args w1 = (c2, w2, evs2)"
        by (cases "call_handlers sem fsm hs args w1") auto
      from Cons.IH [OF rest] obtain n where n: "evs2 = map (\<lambda>h. HandlerCall h args) (take n hs)"
        by blast
      from Pair Returned rest Cons.prems have "evs = HandlerCall h args # evs2"
        by simp
      with n have "evs = map (\<lambda>h. HandlerCall h args) (take (Suc n) (h # hs))"
        by simp
      then show ?thesis by blast
    qed
  qed
qed

text \<open>The loop, said without it: when each handler in turn returns, in the world its
  predecessors have left, the loop returns with the world that results from calling them
  all in order with the arguments, and has called each once.\<close>

lemma call_handlers_all_return:
  assumes "\<forall>n < length hs.
             fst (sem (hs ! n) fsm args (foldl (\<lambda>w h. snd (sem h fsm args w)) w (take n hs)))
               = Returned ()"
  shows "call_handlers sem fsm hs args w =
           (Returned (), foldl (\<lambda>w h. snd (sem h fsm args w)) w hs,
            map (\<lambda>h. HandlerCall h args) hs)"
  using assms
proof (induction hs arbitrary: w)
  case Nil
  then show ?case by simp
next
  case (Cons h hs)
  from Cons.prems have first: "fst (sem h fsm args w) = Returned ()"
    by fastforce
  have rest: "\<forall>n < length hs.
             fst (sem (hs ! n) fsm args
                    (foldl (\<lambda>w h. snd (sem h fsm args w)) (snd (sem h fsm args w)) (take n hs)))
               = Returned ()"
  proof (intro allI impI)
    fix n assume "n < length hs"
    with Cons.prems have
      "fst (sem ((h # hs) ! Suc n) fsm args
              (foldl (\<lambda>w h. snd (sem h fsm args w)) w (take (Suc n) (h # hs)))) = Returned ()"
      by (metis Suc_less_eq length_Cons)
    then show "fst (sem (hs ! n) fsm args
                    (foldl (\<lambda>w h. snd (sem h fsm args w)) (snd (sem h fsm args w)) (take n hs)))
               = Returned ()"
      by simp
  qed
  from Cons.IH [OF rest] first show ?case
    by (cases "sem h fsm args w") simp
qed

subsection \<open>The three paths of emit\<close>

lemma emit_invalid_state:
  "\<not> isValid fsm s \<Longrightarrow>
   emit sem esem fsm s args w =
     (case handleError esem fsm (''Invalid state requested: '' @ s) w of
        (c, w', evs) \<Rightarrow>
          ((case c of Returned u \<Rightarrow> Returned JsFalse | Threw e \<Rightarrow> Threw e), fsm, w', evs))"
  by (auto simp: emit_def split: prod.splits completion.splits)

lemma emit_invalid_transition:
  fixes sem :: "('h, 'g, 'a, 'w, 'x) handler_sem"
  shows "isValid fsm s \<Longrightarrow> canTransitionTo fsm s = (Inr False :: 'x js_error + bool) \<Longrightarrow>
   emit sem esem fsm s args w =
     (case handleError esem fsm
             (''Invalid transition from '' @ currentState fsm @ '' requested: '' @ s) w of
        (c, w', evs) \<Rightarrow>
          ((case c of Returned u \<Rightarrow> Returned JsFalse | Threw e \<Rightarrow> Threw e), fsm, w', evs))"
  by (auto simp: emit_def split: prod.splits completion.splits)

lemma emit_accepted:
  fixes sem :: "('h, 'g, 'a, 'w, 'x) handler_sem"
  assumes "engine_inv fsm" "isValid fsm s"
    and "canTransitionTo fsm s = (Inr True :: 'x js_error + bool)"
  shows "emit sem esem fsm s args w =
     (case call_handlers sem fsm (handlers fsm ANY @ handlers fsm s) args w of
        (Threw e, w', evs) \<Rightarrow> (Threw e, fsm, w', evs)
      | (Returned u, w', evs) \<Rightarrow> (Returned This, fsm\<lparr>currentState := s\<rparr>, w', evs))"
proof -
  from assms(1) obtain anys where anys: "get_property (transitions fsm) ANY = Some anys"
    by (auto simp: engine_inv_def)
  from assms(2) have "s \<in> set (knownStates fsm)"
    by (simp add: isValid_known)
  moreover from assms(1) have "\<forall>k \<in> set (knownStates fsm). get_property (transitions fsm) k \<noteq> None"
    unfolding engine_inv_def list_all_iff by blast
  ultimately obtain hs where hs: "get_property (transitions fsm) s = Some hs"
    by blast
  show ?thesis
    using assms(2,3) anys hs
    by (auto simp: emit_def handlers_def call_handlers_append
             split: prod.splits completion.splits)
qed

text \<open>What a dispatch that takes the error path with message \<open>m\<close> comes to, by the error
  handler that is set and by how its call ends.\<close>

lemma rejected_outcomes:
  assumes path: "emit sem esem fsm s args w =
     (case handleError esem fsm m w of
        (c, w', evs) \<Rightarrow>
          ((case c of Returned u \<Rightarrow> Returned JsFalse | Threw e \<Rightarrow> Threw e), fsm, w', evs))"
  shows "(errorHandler fsm = None \<longrightarrow>
            emit sem esem fsm s args w =
              (Threw (Error (''No error handlers present: '' @ m)), fsm, w, []))
         \<and> (\<forall>g w'. errorHandler fsm = Some g \<and> esem g fsm m w = (Returned (), w') \<longrightarrow>
            emit sem esem fsm s args w = (Returned JsFalse, fsm, w', [ErrorHandlerCall g m]))
         \<and> (\<forall>g e w'. errorHandler fsm = Some g \<and> esem g fsm m w = (Threw e, w') \<longrightarrow>
            emit sem esem fsm s args w = (Threw e, fsm, w', [ErrorHandlerCall g m]))"
  unfolding path by (auto simp: handleError_def)

lemma handleError_no_handler_calls:
  "handleError esem fsm m w = (c, w', evs) \<Longrightarrow> HandlerCall h a \<notin> set evs"
  by (auto simp: handleError_def split: option.splits prod.splits)

lemma emit_engine:
  "emit sem esem fsm s args w = (c, fsm', w', evs)
     \<Longrightarrow> fsm' = fsm \<or> (isValid fsm s \<and> fsm' = fsm\<lparr>currentState := s\<rparr>)"
  by (auto simp: emit_def split: if_splits prod.splits completion.splits sum.splits bool.splits option.splits)

subsection \<open>Sequences of method calls\<close>

lemma perform_engine_inv:
  "engine_inv (fst st) \<Longrightarrow> engine_inv (fst (perform sem esem c st))"
proof (cases st)
  case (Pair fsm w)
  assume inv: "engine_inv (fst st)"
  show ?thesis
  proof (cases c)
    case (On s h)
    with Pair inv show ?thesis
      by (auto simp: engine_inv_on split: sum.splits)
  next
    case (Off s h)
    with Pair inv show ?thesis
      by (auto simp: engine_inv_off split: sum.splits)
  next
    case (OnError g)
    with Pair inv show ?thesis
      by (simp add: engine_inv_onError)
  next
    case (Emit s args)
    obtain c' fsm' w' evs where r: "emit sem esem fsm s args w = (c', fsm', w', evs)"
      by (cases "emit sem esem fsm s args w") auto
    from emit_engine [OF r] inv Pair have "engine_inv fsm'"
      by (auto simp: engine_inv_currentState)
    with Emit Pair r show ?thesis by simp
  qed
qed

lemma engine_inv_perform_all:
  "engine_inv (fst st) \<Longrightarrow> engine_inv (fst (perform_all sem esem cs st))"
  by (induction cs arbitrary: st) (auto simp: perform_engine_inv)

lemma engine_inv_reachable:
  "engine_inv (fst (perform_all sem esem cs (FSM_constructor table initialState, w)))"
  by (simp add: engine_inv_perform_all engine_inv_constructor)

lemma perform_knownStates:
  "knownStates (fst (perform sem esem c st)) = knownStates (fst st)"
proof (cases st)
  case (Pair fsm w)
  show ?thesis
  proof (cases c)
    case (On s h)
    with Pair show ?thesis by (auto simp: on_cases split: sum.splits if_splits)
  next
    case (Off s h)
    with Pair show ?thesis by (auto simp: off_cases split: sum.splits if_splits)
  next
    case (OnError g)
    with Pair show ?thesis by (simp add: onError_def)
  next
    case (Emit s args)
    obtain c' fsm' w' evs where r: "emit sem esem fsm s args w = (c', fsm', w', evs)"
      by (cases "emit sem esem fsm s args w") auto
    from emit_engine [OF r] have "knownStates fsm' = knownStates fsm" by auto
    with Emit Pair r show ?thesis by simp
  qed
qed

lemma perform_all_knownStates:
  "knownStates (fst (perform_all sem esem cs st)) = knownStates (fst st)"
  by (induction cs arbitrary: st) (auto simp: perform_knownStates)

lemma perform_current_known:
  assumes "isValid (fst st) (currentState (fst st))"
  shows "isValid (fst (perform sem esem c st)) (currentState (fst (perform sem esem c st)))"
proof (cases st)
  case (Pair fsm w)
  with assms have cur: "isValid fsm (currentState fsm)" by simp
  show ?thesis
  proof (cases c)
    case (On s h)
    with Pair cur show ?thesis
      by (auto simp: on_cases isValid_known split: sum.splits if_splits)
  next
    case (Off s h)
    with Pair cur show ?thesis
      by (auto simp: off_cases isValid_known split: sum.splits if_splits)
  next
    case (OnError g)
    with Pair cur show ?thesis by (simp add: onError_def isValid_known)
  next
    case (Emit s args)
    obtain c' fsm' w' evs where r: "emit sem esem fsm s args w = (c', fsm', w', evs)"
      by (cases "emit sem esem fsm s args w") auto
    from emit_engine [OF r] cur have "isValid fsm' (currentState fsm')"
      by (auto simp: isValid_known)
    with Emit Pair r show ?thesis by simp
  qed
qed

lemma perform_all_current_known:
  "isValid (fst st) (currentState (fst st))
     \<Longrightarrow> isValid (fst (perform_all sem esem cs st)) (currentState (fst (perform_all sem esem cs st)))"
  by (induction cs arbitrary: st) (auto simp: perform_current_known)

lemma constructor_current_known:
  "isValid (FSM_constructor table initialState) (currentState (FSM_constructor table initialState))
     \<longleftrightarrow> initialState \<in> fst ` set table"
  by (simp add: isValid_known FSM_constructor_def)

lemma registry_entry:
  assumes "engine_inv fsm" and "s = ANY \<or> isValid fsm s"
  shows "get_property (transitions fsm) s = Some (handlers fsm s)"
proof -
  from assms have "get_property (transitions fsm) s \<noteq> None"
    unfolding engine_inv_def list_all_iff isValid_known by blast
  then show ?thesis by (auto simp: handlers_def)
qed

subsection \<open>The concrete engines, evaluated\<close>

lemma draft_engine_eval:
  "draft_engine =
     \<lparr> allowedTransitions = workflow, currentState = ''draft'', errorHandler = None,
       knownStates = [''draft'', ''inReview'', ''changesNeeded'', ''approved'', ''scheduled'',
                      ''published''],
       transitions =
         \<lparr> ownProperties =
             [(''anyStateChange'', []), (''draft'', []), (''inReview'', []),
              (''changesNeeded'', []), (''approved'', []), (''scheduled'', []),
              (''published'', [])],
           prototypeArray = None \<rparr> \<rparr>"
  by (simp add: draft_engine_def FSM_constructor_def workflow_def ANY_def set_property_def)

lemma registered_engine_eval:
  "registered_engine =
     \<lparr> allowedTransitions = workflow, currentState = ''draft'', errorHandler = Some 5,
       knownStates = [''draft'', ''inReview'', ''changesNeeded'', ''approved'', ''scheduled'',
                      ''published''],
       transitions =
         \<lparr> ownProperties =
             [(''anyStateChange'', [7]), (''draft'', []), (''inReview'', [1, 2, 1]),
              (''changesNeeded'', []), (''approved'', []), (''scheduled'', []),
              (''published'', [])],
           prototypeArray = None \<rparr> \<rparr>"
  by (simp add: registered_engine_def draft_engine_eval on_def isValid_def onError_def ANY_def
                hasOwnProperty_def get_property_def set_property_def)

lemma throwing_engine_eval:
  "throwing_engine =
     \<lparr> allowedTransitions = workflow, currentState = ''draft'', errorHandler = Some 5,
       knownStates = [''draft'', ''inReview'', ''changesNeeded'', ''approved'', ''scheduled'',
                      ''published''],
       transitions =
         \<lparr> ownProperties =
             [(''anyStateChange'', [7]), (''draft'', []), (''inReview'', [1, 13, 2]),
              (''changesNeeded'', []), (''approved'', []), (''scheduled'', []),
              (''published'', [])],
           prototypeArray = None \<rparr> \<rparr>"
  by (simp add: throwing_engine_def draft_engine_eval on_def isValid_def onError_def ANY_def
                hasOwnProperty_def get_property_def set_property_def)

lemma collision_engine_eval:
  "collision_engine =
     \<lparr> allowedTransitions = collision_table, currentState = ''a'', errorHandler = None,
       knownStates = [''a'', ''anyStateChange''],
       transitions =
         \<lparr> ownProperties = [(''anyStateChange'', [1]), (''a'', [])],
           prototypeArray = None \<rparr> \<rparr>"
  by (simp add: collision_engine_def FSM_constructor_def collision_table_def on_def ANY_def
                hasOwnProperty_def get_property_def set_property_def)

lemma shadow_engine_eval:
  "shadow_engine =
     \<lparr> allowedTransitions = shadow_table, currentState = ''a'', errorHandler = None,
       knownStates = [''hasOwnProperty'', ''a''],
       transitions =
         \<lparr> ownProperties = [(''anyStateChange'', []), (''hasOwnProperty'', []), (''a'', [])],
           prototypeArray = None \<rparr> \<rparr>"
  by (simp add: shadow_engine_def FSM_constructor_def shadow_table_def ANY_def set_property_def)

lemma proto_engine_eval:
  "proto_engine =
     \<lparr> allowedTransitions = proto_table, currentState = ''a'', errorHandler = None,
       knownStates = [''__proto__'', ''a''],
       transitions =
         \<lparr> ownProperties = [(''anyStateChange'', []), (''a'', [])],
           prototypeArray = Some [1] \<rparr> \<rparr>"
  by (simp add: proto_engine_def FSM_constructor_def proto_table_def on_def isValid_def ANY_def
                hasOwnProperty_def get_property_def set_property_def)

section \<open>The claims\<close>

subsection \<open>C1: canTransitionTo\<close>

text \<open>
  Where the current state's outgoing list is an array, \<open>canTransitionTo_listed\<close> above gives
  the membership test. Where it is \<^verbatim>\<open>null\<close>, as for \<^verbatim>\<open>published\<close> in the table of the README
  and of the tests, or missing, the method does not answer \<^verbatim>\<open>false\<close>: it throws. A dispatch
  from such a state to a known state throws the same \<^verbatim>\<open>TypeError\<close>, and the error handler
  that is set is not called.
\<close>

lemma emit_from_terminal_state_throws:
  "emit sample_sem sample_esem (registered_engine\<lparr>currentState := ''published''\<rparr>) ''draft'' 0 [] =
     (Threw TypeError, registered_engine\<lparr>currentState := ''published''\<rparr>, [], [])"
  by (simp add: emit_def isValid_def canTransitionTo_def registered_engine_eval workflow_def)

text \<open>
  Claim C1 says that \<^verbatim>\<open>canTransitionTo(t)\<close> yields false for every \<open>t\<close> when the current
  state's outgoing list is the absence marker \<^verbatim>\<open>null\<close>, or when the current state is not a
  known state. The code at such inputs: with the table of the README, an engine whose
  current state is \<^verbatim>\<open>published\<close> (outgoing list \<^verbatim>\<open>null\<close>) and one whose current state is
  the unknown \<^verbatim>\<open>nope\<close> both throw a \<^verbatim>\<open>TypeError\<close> on \<^verbatim>\<open>canTransitionTo('draft')\<close>.
\<close>

theorem C1_canTransitionTo_throws:
  "canTransitionTo (FSM_constructor workflow ''published'' :: (nat, nat) FSM) ''draft''
     = (Inl TypeError :: nat js_error + bool)
   \<and> canTransitionTo (FSM_constructor workflow ''nope'' :: (nat, nat) FSM) ''draft''
     = (Inl TypeError :: nat js_error + bool)"
  by (simp add: canTransitionTo_def FSM_constructor_def workflow_def)

subsection \<open>C2: the current state is a known state\<close>

text \<open>
  The constructor stores the initial state as it is given: constructed with the initial
  state \<^verbatim>\<open>nope\<close>, the engine's current state is not a known state.
\<close>

theorem C2_counterexample:
  "\<not> isValid (FSM_constructor workflow ''nope'' :: (nat, nat) FSM)
       (currentState (FSM_constructor workflow ''nope'' :: (nat, nat) FSM))"
  by (simp add: isValid_def FSM_constructor_def workflow_def)

text \<open>
  Claim C2, amended: after construction the current state is a member of the known-state
  set exactly when the initial state is a key of the table; for an engine constructed with
  such an initial state, after every prefix of every sequence of method calls (registering,
  unregistering, setting the error handler, dispatching, also when the call is rejected or
  throws) the current state is a member of the known-state set.
\<close>

theorem C2_currentState_known_at_all_times:
  "(isValid (FSM_constructor table initialState) (currentState (FSM_constructor table initialState))
      \<longleftrightarrow> initialState \<in> fst ` set table)
   \<and> (initialState \<in> fst ` set table \<longrightarrow>
        (\<forall>n. isValid (fst (perform_all sem esem (take n calls) (FSM_constructor table initialState, w)))
               (currentState
                  (fst (perform_all sem esem (take n calls) (FSM_constructor table initialState, w))))))"
  using perform_all_current_known [of "(FSM_constructor table initialState, w)" sem esem]
  by (simp add: constructor_current_known)

text \<open>The README's table with initial state \<^verbatim>\<open>draft\<close>, after an accepted and a rejected
  dispatch.\<close>

theorem C2_witness:
  "''draft'' \<in> fst ` set workflow
   \<and> isValid (fst (perform_all sample_sem sample_esem
                    (take 2 [Emit ''inReview'' 0, Emit ''nope'' 0, Emit ''draft'' 0])
                    (FSM_constructor workflow ''draft'', [])))
       (currentState (fst (perform_all sample_sem sample_esem
                    (take 2 [Emit ''inReview'' 0, Emit ''nope'' 0, Emit ''draft'' 0])
                    (FSM_constructor workflow ''draft'', []))))"
proof -
  have key: "''draft'' \<in> fst ` set workflow"
    by (simp add: workflow_def)
  with C2_currentState_known_at_all_times
         [of workflow "''draft''" sample_sem sample_esem
             "[Emit ''inReview'' 0, Emit ''nope'' 0, Emit ''draft'' 0]" "[]"]
  show ?thesis by blast
qed

subsection \<open>C3: rejected dispatch\<close>

text \<open>
  A rejected dispatch need not return \<^verbatim>\<open>false\<close>: with no error handler set, the error path
  throws, as the test of \<^verbatim>\<open>handleError\<close> expects. From \<^verbatim>\<open>draft\<close> the known state
  \<^verbatim>\<open>published\<close> is not allowed, and the dispatch throws.
\<close>

theorem C3_counterexample:
  "errorHandler draft_engine = None
   \<and> isValid draft_engine ''published''
   \<and> canTransitionTo draft_engine ''published'' = (Inr False :: nat js_error + bool)
   \<and> emit sample_sem sample_esem draft_engine ''published'' 0 [] =
       (Threw (Error ''No error handlers present: Invalid transition from draft requested: published''),
        draft_engine, [], [])"
  by (simp add: emit_def isValid_def canTransitionTo_def handleError_def draft_engine_eval
                workflow_def)

text \<open>
  Claim C3, amended: when the requested state is not a known state, dispatch invokes the
  error path with exactly the message \<^verbatim>\<open>Invalid state requested: {state}\<close>; when it is a
  known state and the outgoing list of the current state is an array that does not hold it
  (\<^verbatim>\<open>canTransitionTo\<close> then returns \<^verbatim>\<open>false\<close>), with exactly the message
  \<^verbatim>\<open>Invalid transition from {CurrentState} requested: {state}\<close>. In both cases the engine,
  with its current state, is unchanged and no registered handler is invoked, whatever the
  handlers would do; dispatch returns \<^verbatim>\<open>false\<close> when the error handler is set and returns,
  and throws what the error path throws otherwise. (A current state whose outgoing list is
  \<^verbatim>\<open>null\<close> or missing is the subject of C1 and is left out here.)
\<close>

theorem C3_rejected_dispatch:
  fixes sem :: "('h, 'g, 'a, 'w, 'x) handler_sem"
  shows
  "(\<not> isValid fsm s \<longrightarrow>
      (errorHandler fsm = None \<longrightarrow>
         emit sem esem fsm s args w =
           (Threw (Error (''No error handlers present: '' @ ''Invalid state requested: '' @ s)),
            fsm, w, []))
      \<and> (\<forall>g w'. errorHandler fsm = Some g
                  \<and> esem g fsm (''Invalid state requested: '' @ s) w = (Returned (), w') \<longrightarrow>
         emit sem esem fsm s args w =
           (Returned JsFalse, fsm, w', [ErrorHandlerCall g (''Invalid state requested: '' @ s)]))
      \<and> (\<forall>g e w'. errorHandler fsm = Some g
                  \<and> esem g fsm (''Invalid state requested: '' @ s) w = (Threw e, w') \<longrightarrow>
         emit sem esem fsm s args w =
           (Threw e, fsm, w', [ErrorHandlerCall g (''Invalid state requested: '' @ s)])))
   \<and> (isValid fsm s
        \<and> map_of (allowedTransitions fsm) (currentState fsm) = Some (Some outgoing)
        \<and> s \<notin> set outgoing \<longrightarrow>
      canTransitionTo fsm s = (Inr False :: 'x js_error + bool)
      \<and> (errorHandler fsm = None \<longrightarrow>
         emit sem esem fsm s args w =
           (Threw (Error (''No error handlers present: '' @ ''Invalid transition from ''
                            @ currentState fsm @ '' requested: '' @ s)),
            fsm, w, []))
      \<and> (\<forall>g w'. errorHandler fsm = Some g
                  \<and> esem g fsm (''Invalid transition from '' @ currentState fsm
                                    @ '' requested: '' @ s) w = (Returned (), w') \<longrightarrow>
         emit sem esem fsm s args w =
           (Returned JsFalse, fsm, w',
            [ErrorHandlerCall g (''Invalid transition from '' @ currentState fsm
                                   @ '' requested: '' @ s)]))
      \<and> (\<forall>g e w'. errorHandler fsm = Some g
                  \<and> esem g fsm (''Invalid transition from '' @ currentState fsm
                                    @ '' requested: '' @ s) w = (Threw e, w') \<longrightarrow>
         emit sem esem fsm s args w =
           (Threw e, fsm, w',
            [ErrorHandlerCall g (''Invalid transition from '' @ currentState fsm
                                   @ '' requested: '' @ s)])))"
proof (rule conjI)
  show "\<not> isValid fsm s \<longrightarrow>
      (errorHandler fsm = None \<longrightarrow>
         emit sem esem fsm s args w =
           (Threw (Error (''No error handlers present: '' @ ''Invalid state requested: '' @ s)),
            fsm, w, []))
      \<and> (\<forall>g w'. errorHandler fsm = Some g
                  \<and> esem g fsm (''Invalid state requested: '' @ s) w = (Returned (), w') \<longrightarrow>
         emit sem esem fsm s args w =
           (Returned JsFalse, fsm, w', [ErrorHandlerCall g (''Invalid state requested: '' @ s)]))
      \<and> (\<forall>g e w'. errorHandler fsm = Some g
                  \<and> esem g fsm (''Invalid state requested: '' @ s) w = (Threw e, w') \<longrightarrow>
         emit sem esem fsm s args w =
           (Threw e, fsm, w', [ErrorHandlerCall g (''Invalid state requested: '' @ s)]))"
  proof (rule impI)
    assume unknown: "\<not> isValid fsm s"
    show "(errorHandler fsm = None \<longrightarrow>
         emit sem esem fsm s args w =
           (Threw (Error (''No error handlers present: '' @ ''Invalid state requested: '' @ s)),
            fsm, w, []))
      \<and> (\<forall>g w'. errorHandler fsm = Some g
                  \<and> esem g fsm (''Invalid state requested: '' @ s) w = (Returned (), w') \<longrightarrow>
         emit sem esem fsm s args w =
           (Returned JsFalse, fsm, w', [ErrorHandlerCall g (''Invalid state requested: '' @ s)]))
      \<and> (\<forall>g e w'. errorHandler fsm = Some g
                  \<and> esem g fsm (''Invalid state requested: '' @ s) w = (Threw e, w') \<longrightarrow>
         emit sem esem fsm s args w =
           (Threw e, fsm, w', [ErrorHandlerCall g (''Invalid state requested: '' @ s)]))"
      by (rule rejected_outcomes [OF emit_invalid_state [OF unknown]])
  qed
next
  show "isValid fsm s
        \<and> map_of (allowedTransitions fsm) (currentState fsm) = Some (Some outgoing)
        \<and> s \<notin> set outgoing \<longrightarrow>
      canTransitionTo fsm s = (Inr False :: 'x js_error + bool)
      \<and> (errorHandler fsm = None \<longrightarrow>
         emit sem esem fsm s args w =
           (Threw (Error (''No error handlers present: '' @ ''Invalid transition from ''
                            @ currentState fsm @ '' requested: '' @ s)),
            fsm, w, []))
      \<and> (\<forall>g w'. errorHandler fsm = Some g
                  \<and> esem g fsm (''Invalid transition from '' @ currentState fsm
                                    @ '' requested: '' @ s) w = (Returned (), w') \<longrightarrow>
         emit sem esem fsm s args w =
           (Returned JsFalse, fsm, w',
            [ErrorHandlerCall g (''Invalid transition from '' @ currentState fsm
                                   @ '' requested: '' @ s)]))
      \<and> (\<forall>g e w'. errorHandler fsm = Some g
                  \<and> esem g fsm (''Invalid transition from '' @ currentState fsm
                                    @ '' requested: '' @ s) w = (Threw e, w') \<longrightarrow>
         emit sem esem fsm s args w =
           (Threw e, fsm, w',
            [ErrorHandlerCall g (''Invalid transition from '' @ currentState fsm
                                   @ '' requested: '' @ s)]))"
  proof (rule impI)
    assume a: "isValid fsm s
        \<and> map_of (allowedTransitions fsm) (currentState fsm) = Some (Some outgoing)
        \<and> s \<notin> set outgoing"
    then have no: "canTransitionTo fsm s = (Inr False :: 'x js_error + bool)"
      by (simp add: canTransitionTo_listed)
    from a have valid: "isValid fsm s" by simp
    from no rejected_outcomes [OF emit_invalid_transition [OF valid no, of sem esem args w]]
    show "canTransitionTo fsm s = (Inr False :: 'x js_error + bool)
      \<and> (errorHandler fsm = None \<longrightarrow>
         emit sem esem fsm s args w =
           (Threw (Error (''No error handlers present: '' @ ''Invalid transition from ''
                            @ currentState fsm @ '' requested: '' @ s)),
            fsm, w, []))
      \<and> (\<forall>g w'. errorHandler fsm = Some g
                  \<and> esem g fsm (''Invalid transition from '' @ currentState fsm
                                    @ '' requested: '' @ s) w = (Returned (), w') \<longrightarrow>
         emit sem esem fsm s args w =
           (Returned JsFalse, fsm, w',
            [ErrorHandlerCall g (''Invalid transition from '' @ currentState fsm
                                   @ '' requested: '' @ s)]))
      \<and> (\<forall>g e w'. errorHandler fsm = Some g
                  \<and> esem g fsm (''Invalid transition from '' @ currentState fsm
                                    @ '' requested: '' @ s) w = (Threw e, w') \<longrightarrow>
         emit sem esem fsm s args w =
           (Threw e, fsm, w',
            [ErrorHandlerCall g (''Invalid transition from '' @ currentState fsm
                                   @ '' requested: '' @ s)]))"
      by (rule conjI)
  qed
qed

text \<open>An unknown state, and a known state that \<^verbatim>\<open>draft\<close> does not lead to, with error
  handler 5 set.\<close>

theorem C3_witness:
  "\<not> isValid registered_engine ''nope''
   \<and> errorHandler registered_engine = Some 5
   \<and> sample_esem 5 registered_engine ''Invalid state requested: nope'' []
       = (Returned (), [''Invalid state requested: nope''])
   \<and> emit sample_sem sample_esem registered_engine ''nope'' 0 [] =
       (Returned JsFalse, registered_engine, [''Invalid state requested: nope''],
        [ErrorHandlerCall 5 ''Invalid state requested: nope''])
   \<and> isValid registered_engine ''published''
   \<and> map_of (allowedTransitions registered_engine) (currentState registered_engine)
       = Some (Some [''inReview''])
   \<and> ''published'' \<notin> set [''inReview'']
   \<and> sample_esem 5 registered_engine ''Invalid transition from draft requested: published'' []
       = (Returned (), [''Invalid transition from draft requested: published''])
   \<and> emit sample_sem sample_esem registered_engine ''published'' 0 [] =
       (Returned JsFalse, registered_engine,
        [''Invalid transition from draft requested: published''],
        [ErrorHandlerCall 5 ''Invalid transition from draft requested: published''])"
proof -
  have a: "\<not> isValid registered_engine ''nope''"
    by (simp add: isValid_def registered_engine_eval)
  have b: "errorHandler registered_engine = Some 5"
    by (simp add: registered_engine_eval)
  have c: "sample_esem 5 registered_engine ''Invalid state requested: nope'' []
       = (Returned (), [''Invalid state requested: nope''])"
    by (simp add: sample_esem_def)
  have d: "isValid registered_engine ''published''"
    by (simp add: isValid_def registered_engine_eval)
  have e: "map_of (allowedTransitions registered_engine) (currentState registered_engine)
       = Some (Some [''inReview''])"
    by (simp add: registered_engine_eval workflow_def)
  have f: "''published'' \<notin> set [''inReview'']"
    by simp
  have g: "sample_esem 5 registered_engine ''Invalid transition from draft requested: published'' []
       = (Returned (), [''Invalid transition from draft requested: published''])"
    by (simp add: sample_esem_def)
  have cur: "currentState registered_engine = ''draft''"
    by (simp add: registered_engine_eval)
  from C3_rejected_dispatch
         [where fsm = registered_engine and s = "''nope''" and sem = sample_sem
            and esem = sample_esem and args = 0 and w = "[]"] a b c
  have r1: "emit sample_sem sample_esem registered_engine ''nope'' 0 [] =
       (Returned JsFalse, registered_engine, [''Invalid state requested: nope''],
        [ErrorHandlerCall 5 ''Invalid state requested: nope''])"
    by simp
  from C3_rejected_dispatch
         [where fsm = registered_engine and s = "''published''" and sem = sample_sem
            and esem = sample_esem and args = 0 and w = "[]" and outgoing = "[''inReview'']"]
       d e f b g
  have r2: "emit sample_sem sample_esem registered_engine ''published'' 0 [] =
       (Returned JsFalse, registered_engine,
        [''Invalid transition from draft requested: published''],
        [ErrorHandlerCall 5 ''Invalid transition from draft requested: published''])"
    unfolding cur by simp
  from a b c d e f g r1 r2 show ?thesis by blast
qed

subsection \<open>C4: the error path\<close>

text \<open>
  With an error handler set, dispatch need not return \<^verbatim>\<open>false\<close>: \<^verbatim>\<open>handleError\<close> calls the
  handler with no \<^verbatim>\<open>try\<close> around the call, so what the error handler throws reaches the
  caller of dispatch. Error handler 13 throws.
\<close>

theorem C4_counterexample:
  "errorHandler (onError draft_engine 13) = Some 13
   \<and> emit sample_sem sample_esem (onError draft_engine 13) ''nope'' 0 [] =
       (Threw (Other 0), onError draft_engine 13, [],
        [ErrorHandlerCall 13 ''Invalid state requested: nope''])"
  by (simp add: emit_def isValid_def handleError_def sample_esem_def onError_def
                draft_engine_eval)


text \<open>
  Claim C4, amended: for every invocation of the error path by a dispatch, with message
  \<open>m\<close>: if no error handler is set, an \<^verbatim>\<open>Error\<close> with the message
  \<^verbatim>\<open>No error handlers present: {m}\<close> propagates to the caller of dispatch, and nothing is
  called; if an error handler is set, it is invoked once with \<open>m\<close>, and when it returns
  dispatch returns \<^verbatim>\<open>false\<close> and nothing is raised, while what it throws propagates to the
  caller of dispatch as it is. The engine is unchanged in each case.
\<close>

theorem C4_error_path:
  fixes sem :: "('h, 'g, 'a, 'w, 'x) handler_sem"
  assumes "(\<not> isValid fsm s \<and> m = ''Invalid state requested: '' @ s)
           \<or> (isValid fsm s \<and> canTransitionTo fsm s = (Inr False :: 'x js_error + bool)
               \<and> m = ''Invalid transition from '' @ currentState fsm @ '' requested: '' @ s)"
  shows
  "(errorHandler fsm = None \<longrightarrow>
      handleError esem fsm m w
        = (Threw (Error (''No error handlers present: '' @ m)), w, ([] :: ('h, 'g, 'a) event list))
      \<and> emit sem esem fsm s args w
        = (Threw (Error (''No error handlers present: '' @ m)), fsm, w, []))
   \<and> (\<forall>g w'. errorHandler fsm = Some g \<and> esem g fsm m w = (Returned (), w') \<longrightarrow>
      handleError esem fsm m w
        = (Returned (), w', [ErrorHandlerCall g m :: ('h, 'g, 'a) event])
      \<and> emit sem esem fsm s args w = (Returned JsFalse, fsm, w', [ErrorHandlerCall g m]))
   \<and> (\<forall>g e w'. errorHandler fsm = Some g \<and> esem g fsm m w = (Threw e, w') \<longrightarrow>
      handleError esem fsm m w
        = (Threw e, w', [ErrorHandlerCall g m :: ('h, 'g, 'a) event])
      \<and> emit sem esem fsm s args w = (Threw e, fsm, w', [ErrorHandlerCall g m]))"
proof -
  have path: "emit sem esem fsm s args w =
     (case handleError esem fsm m w of
        (c, w', evs) \<Rightarrow>
          ((case c of Returned u \<Rightarrow> Returned JsFalse | Threw e \<Rightarrow> Threw e), fsm, w', evs))"
    using assms emit_invalid_state [of fsm s sem esem args w]
      emit_invalid_transition [of fsm s sem esem args w]
    by auto
  show ?thesis
    unfolding path by (auto simp: handleError_def)
qed


text \<open>A dispatch to an unknown state, with error handler 5 set and with none.\<close>

theorem C4_witness:
  "\<not> isValid registered_engine ''nope''
   \<and> errorHandler registered_engine = Some 5
   \<and> sample_esem 5 registered_engine ''Invalid state requested: nope'' []
       = (Returned (), [''Invalid state requested: nope''])
   \<and> emit sample_sem sample_esem registered_engine ''nope'' 0 [] =
       (Returned JsFalse, registered_engine, [''Invalid state requested: nope''],
        [ErrorHandlerCall 5 ''Invalid state requested: nope''])
   \<and> errorHandler draft_engine = None
   \<and> emit sample_sem sample_esem draft_engine ''nope'' 0 [] =
       (Threw (Error ''No error handlers present: Invalid state requested: nope''),
        draft_engine, [], [])"
proof -
  have a: "\<not> isValid registered_engine ''nope''"
    by (simp add: isValid_def registered_engine_eval)
  have b: "errorHandler registered_engine = Some 5"
    by (simp add: registered_engine_eval)
  have c: "sample_esem 5 registered_engine ''Invalid state requested: nope'' []
             = (Returned (), [''Invalid state requested: nope''])"
    by (simp add: sample_esem_def)
  have d: "\<not> isValid draft_engine ''nope''"
    by (simp add: isValid_def draft_engine_eval)
  have e: "errorHandler draft_engine = None"
    by (simp add: draft_engine_eval)
  from C4_error_path [of registered_engine "''nope''" "''Invalid state requested: nope''"
                         sample_esem "[]" sample_sem 0] a b c
  have r1: "emit sample_sem sample_esem registered_engine ''nope'' 0 [] =
       (Returned JsFalse, registered_engine, [''Invalid state requested: nope''],
        [ErrorHandlerCall 5 ''Invalid state requested: nope''])"
    by simp
  from C4_error_path [of draft_engine "''nope''" "''Invalid state requested: nope''"
                         sample_esem "[]" sample_sem 0] d e
  have r2: "emit sample_sem sample_esem draft_engine ''nope'' 0 [] =
       (Threw (Error ''No error handlers present: Invalid state requested: nope''),
        draft_engine, [], [])"
    by simp
  from a b c e r1 r2 show ?thesis by simp
qed


subsection \<open>C5: successful dispatch\<close>

text \<open>
  The wildcard key is the plain string \<^verbatim>\<open>anyStateChange\<close>. For a table that has a state of
  that very name, the sequence of the wildcard key and the sequence of the state are one
  property of the registry: handler 1, registered once, is called twice by one dispatch to
  that state.
\<close>

theorem C5_counterexample:
  "handlers collision_engine ANY = [1]
   \<and> isValid collision_engine ''anyStateChange''
   \<and> canTransitionTo collision_engine ''anyStateChange'' = (Inr True :: nat js_error + bool)
   \<and> emit recording_sem recording_esem collision_engine ''anyStateChange'' 0 [] =
       (Returned This, collision_engine\<lparr>currentState := ''anyStateChange''\<rparr>,
        [(1, 0), (1, 0)], [HandlerCall 1 0, HandlerCall 1 0])"
  by (simp add: emit_def isValid_def canTransitionTo_def handlers_def get_property_def
                recording_sem_def collision_engine_eval collision_table_def ANY_def)


text \<open>
  Claim C5, amended: for an engine as the constructor and the methods leave it, a dispatch to
  a known state that \<^verbatim>\<open>canTransitionTo\<close> accepts, in which no handler throws, calls the
  handlers in the sequence of the wildcard key in insertion order and then those in the
  sequence of the state in insertion order, each with the arguments of the dispatch, once
  for each entry of the two sequences (so a handler that is in a sequence twice is called
  twice, and for a state named like the wildcard key the one sequence is run in both
  rounds); then the current state is the requested state, nothing else of the engine has
  changed, and \<^verbatim>\<open>this\<close> is returned. The hypothesis says that each handler returns in the
  world its predecessors have left; the world afterwards is the one that results from
  calling the handlers one after the other, so the statement does not hold of a loop that
  skips a handler, calls one twice or passes other arguments.
\<close>

theorem C5_successful_dispatch:
  fixes sem :: "('h, 'g, 'a, 'w, 'x) handler_sem"
  assumes "engine_inv fsm" and "isValid fsm s"
    and "canTransitionTo fsm s = (Inr True :: 'x js_error + bool)"
    and "\<forall>n < length (handlers fsm ANY @ handlers fsm s).
           fst (sem ((handlers fsm ANY @ handlers fsm s) ! n) fsm args
                  (foldl (\<lambda>w h. snd (sem h fsm args w)) w
                     (take n (handlers fsm ANY @ handlers fsm s))))
             = Returned ()"
  shows "emit sem esem fsm s args w =
           (Returned This, fsm\<lparr>currentState := s\<rparr>,
            foldl (\<lambda>w h. snd (sem h fsm args w)) w (handlers fsm ANY @ handlers fsm s),
            map (\<lambda>h. HandlerCall h args) (handlers fsm ANY)
              @ map (\<lambda>h. HandlerCall h args) (handlers fsm s))"
proof -
  have "call_handlers sem fsm (handlers fsm ANY @ handlers fsm s) args w =
          (Returned (),
           foldl (\<lambda>w h. snd (sem h fsm args w)) w (handlers fsm ANY @ handlers fsm s),
           map (\<lambda>h. HandlerCall h args) (handlers fsm ANY @ handlers fsm s))"
    using assms(4)
    by (rule call_handlers_all_return
               [where sem = sem and fsm = fsm and args = args and w = w
                  and hs = "handlers fsm ANY @ handlers fsm s"])
  with emit_accepted [OF assms(1,2,3), of sem esem args w] show ?thesis
    by simp
qed


text \<open>Handler 7 under the wildcard key, handlers 1, 2, 1 under \<^verbatim>\<open>inReview\<close>, each recording
  its number and its argument: the calls are 7, 1, 2, 1, all with the argument 9.\<close>

theorem C5_witness:
  "engine_inv registered_engine \<and> isValid registered_engine ''inReview''
   \<and> canTransitionTo registered_engine ''inReview'' = (Inr True :: nat js_error + bool)
   \<and> handlers registered_engine ANY = [7] \<and> handlers registered_engine ''inReview'' = [1, 2, 1]
   \<and> emit recording_sem recording_esem registered_engine ''inReview'' 9 [] =
       (Returned This, registered_engine\<lparr>currentState := ''inReview''\<rparr>,
        [(7, 9), (1, 9), (2, 9), (1, 9)],
        [HandlerCall 7 9, HandlerCall 1 9, HandlerCall 2 9, HandlerCall 1 9])"
proof -
  have a: "engine_inv registered_engine"
    by (simp add: engine_inv_def get_property_def registered_engine_eval workflow_def ANY_def)
  have b: "isValid registered_engine ''inReview''"
    by (simp add: isValid_def registered_engine_eval)
  have c: "canTransitionTo registered_engine ''inReview'' = (Inr True :: nat js_error + bool)"
    by (simp add: canTransitionTo_def registered_engine_eval workflow_def)
  have d: "handlers registered_engine ANY = [7]"
    by (simp add: handlers_def get_property_def registered_engine_eval ANY_def)
  have e: "handlers registered_engine ''inReview'' = [1, 2, 1]"
    by (simp add: handlers_def get_property_def registered_engine_eval)
  have f: "\<forall>n < length (handlers registered_engine ANY @ handlers registered_engine ''inReview'').
           fst (recording_sem
                  ((handlers registered_engine ANY @ handlers registered_engine ''inReview'') ! n)
                  registered_engine 9
                  (foldl (\<lambda>w h. snd (recording_sem h registered_engine 9 w)) []
                     (take n (handlers registered_engine ANY
                                @ handlers registered_engine ''inReview''))))
             = Returned ()"
    by (simp add: recording_sem_def)
  have r: "emit recording_sem recording_esem registered_engine ''inReview'' 9 [] =
       (Returned This, registered_engine\<lparr>currentState := ''inReview''\<rparr>,
        [(7, 9), (1, 9), (2, 9), (1, 9)],
        [HandlerCall 7 9, HandlerCall 1 9, HandlerCall 2 9, HandlerCall 1 9])"
    using C5_successful_dispatch
            [where sem = recording_sem and esem = recording_esem and fsm = registered_engine
               and s = "''inReview''" and args = 9 and w = "[]", OF a b c f]
    unfolding d e by (simp add: recording_sem_def)
  from a b c d e r show ?thesis by blast
qed


subsection \<open>C6: a handler throws\<close>

text \<open>
  Claim C6: when, in an accepted dispatch, the handlers \<open>before\<close> return and the next
  handler \<open>h\<close> throws \<open>e\<close>, dispatch throws \<open>e\<close> itself; the calls made are those of
  \<open>before\<close> and of \<open>h\<close>, none of them a call of the error handler; the engine, with its
  current state, is unchanged; and the world is the one \<open>h\<close> left when it threw, with the
  effects of the handlers before it.
\<close>

theorem C6_handler_throws:
  fixes sem :: "('h, 'g, 'a, 'w, 'x) handler_sem"
  assumes "engine_inv fsm" and "isValid fsm s"
    and "canTransitionTo fsm s = (Inr True :: 'x js_error + bool)"
    and "handlers fsm ANY @ handlers fsm s = before @ h # after"
    and "call_handlers sem fsm before args w = (Returned (), w1, evs1)"
    and "sem h fsm args w1 = (Threw e, w2)"
  shows "emit sem esem fsm s args w =
           (Threw e, fsm, w2, map (\<lambda>h. HandlerCall h args) (before @ [h]))
         \<and> (\<forall>g m. ErrorHandlerCall g m \<notin> set (map (\<lambda>h. HandlerCall h args) (before @ [h])))"
proof
  have evs1: "evs1 = map (\<lambda>h. HandlerCall h args) before"
    using call_handlers_returned_events [OF assms(5)] .
  have "call_handlers sem fsm (before @ h # after) args w
          = (Threw e, w2, evs1 @ [HandlerCall h args])"
    using assms(5,6) by (simp add: call_handlers_append)
  with emit_accepted [OF assms(1,2,3), of sem esem args w] assms(4) evs1
  show "emit sem esem fsm s args w =
          (Threw e, fsm, w2, map (\<lambda>h. HandlerCall h args) (before @ [h]))"
    by simp
  show "\<forall>g m. ErrorHandlerCall g m \<notin> set (map (\<lambda>h. HandlerCall h args) (before @ [h]))"
    by auto
qed


text \<open>Handlers 7 and 1 run, handler 13 throws the argument 42, handler 2 is not called;
  error handler 5 is set and not called.\<close>

theorem C6_witness:
  "engine_inv throwing_engine \<and> isValid throwing_engine ''inReview''
   \<and> canTransitionTo throwing_engine ''inReview'' = (Inr True :: nat js_error + bool)
   \<and> handlers throwing_engine ANY @ handlers throwing_engine ''inReview'' = [7, 1] @ 13 # [2]
   \<and> errorHandler throwing_engine = Some 5
   \<and> emit sample_sem sample_esem throwing_engine ''inReview'' 42 [] =
       (Threw (Other 42), throwing_engine, [''draft'', ''draft'', ''draft''],
        [HandlerCall 7 42, HandlerCall 1 42, HandlerCall 13 42])"
proof -
  have a: "engine_inv throwing_engine"
    by (simp add: engine_inv_def get_property_def throwing_engine_eval workflow_def ANY_def)
  have b: "isValid throwing_engine ''inReview''"
    by (simp add: isValid_def throwing_engine_eval)
  have c: "canTransitionTo throwing_engine ''inReview'' = (Inr True :: nat js_error + bool)"
    by (simp add: canTransitionTo_def throwing_engine_eval workflow_def)
  have d: "handlers throwing_engine ANY @ handlers throwing_engine ''inReview'' = [7, 1] @ 13 # [2]"
    by (simp add: handlers_def get_property_def throwing_engine_eval ANY_def)
  have e: "call_handlers sample_sem throwing_engine [7, 1] 42 []
             = (Returned (), [''draft'', ''draft''], [HandlerCall 7 42, HandlerCall 1 42])"
    by (simp add: sample_sem_def throwing_engine_eval)
  have f: "sample_sem 13 throwing_engine 42 [''draft'', ''draft'']
             = (Threw (Other 42), [''draft'', ''draft'', ''draft''])"
    by (simp add: sample_sem_def throwing_engine_eval)
  have g: "errorHandler throwing_engine = Some 5"
    by (simp add: throwing_engine_eval)
  have r: "emit sample_sem sample_esem throwing_engine ''inReview'' 42 [] =
       (Threw (Other 42), throwing_engine, [''draft'', ''draft'', ''draft''],
        [HandlerCall 7 42, HandlerCall 1 42, HandlerCall 13 42])"
    using C6_handler_throws
            [where sem = sample_sem and esem = sample_esem and fsm = throwing_engine
               and s = "''inReview''" and before = "[7, 1]" and h = 13 and after = "[2]"
               and args = 42 and w = "[]" and ?w1.0 = "[''draft'', ''draft'']"
               and ?w2.0 = "[''draft'', ''draft'', ''draft'']" and e = "Other 42"
               and ?evs1.0 = "[HandlerCall 7 42, HandlerCall 1 42]", OF a b c d e f]
    by simp
  from a b c d g r show ?thesis by blast
qed

subsection \<open>C7: register\<close>

text \<open>
  What \<^verbatim>\<open>on\<close> does when no state is named \<^verbatim>\<open>hasOwnProperty\<close> and the state asked for is not
  \<^verbatim>\<open>__proto__\<close>: for the wildcard key and for a known state it returns the engine, in which
  the handler has been appended to the sequence of the state, the other sequences and the
  other fields being as before. (For any other state it throws the \<^verbatim>\<open>Error\<close> of
  \<open>on_cases\<close>.)
\<close>

lemma on_registers:
  assumes "map_of (ownProperties (transitions fsm)) ''hasOwnProperty'' = None"
    and "s \<noteq> ''__proto__''" and "s = ANY \<or> isValid fsm s"
  shows "\<exists>fsm'. (on fsm s h :: 'x js_error + ('h, 'g) FSM) = Inr fsm'
           \<and> handlers fsm' s = handlers fsm s @ [h]
           \<and> (\<forall>s'. s' \<noteq> s \<longrightarrow> handlers fsm' s' = handlers fsm s')
           \<and> fsm' = fsm\<lparr>transitions := transitions fsm'\<rparr>"
proof -
  have old: "(if map_of (ownProperties (transitions fsm)) s = None then [] else handlers fsm s)
               = handlers fsm s"
    using assms(2) by (simp add: handlers_def get_property_def)
  show ?thesis
    using assms(1,3) unfolding on_cases old by (auto simp: handlers_update)
qed

text \<open>
  Claim C7 says that \<^verbatim>\<open>register(s, h)\<close> fails only for a state that is neither the wildcard
  key nor known, and otherwise appends \<open>h\<close> to the sequence of \<open>s\<close> and returns the engine.
  The code at two tables: with a state named \<^verbatim>\<open>hasOwnProperty\<close>, the constructor has stored
  an array under that name in \<^verbatim>\<open>this._transitions\<close>, and \<^verbatim>\<open>on\<close> throws a \<^verbatim>\<open>TypeError\<close> for a
  known state and for the wildcard key alike; with a state named \<^verbatim>\<open>__proto__\<close>, under which
  handler 1 is registered, registering handler 2 leaves the sequence holding handler 2
  alone.
\<close>

theorem C7_on_shadowed_or_reset:
  "isValid shadow_engine ''a''
   \<and> (on shadow_engine ''a'' 1 :: nat js_error + (nat, nat) FSM) = Inl TypeError
   \<and> (on shadow_engine ANY 1 :: nat js_error + (nat, nat) FSM) = Inl TypeError
   \<and> isValid proto_engine ''__proto__''
   \<and> handlers proto_engine ''__proto__'' = [1]
   \<and> (on proto_engine ''__proto__'' 2 :: nat js_error + (nat, nat) FSM)
       = Inr (proto_engine\<lparr>transitions := (transitions proto_engine)\<lparr>prototypeArray := Some [2]\<rparr>\<rparr>)"
  by (simp add: on_def isValid_def hasOwnProperty_def get_property_def set_property_def
                handlers_def shadow_engine_eval proto_engine_eval ANY_def)

subsection \<open>C8: unregister\<close>

text \<open>
  What \<^verbatim>\<open>off\<close> does when no state is named \<^verbatim>\<open>hasOwnProperty\<close> and the state asked for is
  not \<^verbatim>\<open>__proto__\<close>: for the wildcard key and for a known state it returns the engine, in
  which the sequence of the state is the old one without any occurrence of the handler,
  the rest in the old order; when the handler was not there, the engine is unchanged.
\<close>

lemma off_removes:
  assumes "map_of (ownProperties (transitions fsm)) ''hasOwnProperty'' = None"
    and "s \<noteq> ''__proto__''" and "s = ANY \<or> isValid fsm s"
  shows "\<exists>fsm'. (off fsm s h :: 'x js_error + ('h, 'g) FSM) = Inr fsm'
           \<and> handlers fsm' s = filter (\<lambda>e. e \<noteq> h) (handlers fsm s)
           \<and> (\<forall>s'. s' \<noteq> s \<longrightarrow> handlers fsm' s' = handlers fsm s')
           \<and> fsm' = fsm\<lparr>transitions := transitions fsm'\<rparr>
           \<and> (h \<notin> set (handlers fsm s) \<and> engine_inv fsm \<longrightarrow> fsm' = fsm)"
proof -
  have old: "(if map_of (ownProperties (transitions fsm)) s = None then [] else handlers fsm s)
               = handlers fsm s"
    using assms(2) by (simp add: handlers_def get_property_def)
  let ?fsm' = "fsm\<lparr>transitions :=
                  set_property (transitions fsm) s (filter (\<lambda>e. e \<noteq> h) (handlers fsm s))\<rparr>"
  have r: "(off fsm s h :: 'x js_error + ('h, 'g) FSM) = Inr ?fsm'"
    using assms(1,3) unfolding off_cases old by auto
  have same: "?fsm' = fsm" if "h \<notin> set (handlers fsm s) \<and> engine_inv fsm"
  proof -
    from that have "filter (\<lambda>e. e \<noteq> h) (handlers fsm s) = handlers fsm s"
      by (auto simp: filter_id_conv)
    moreover from that assms(3) have "get_property (transitions fsm) s = Some (handlers fsm s)"
      by (simp add: registry_entry)
    ultimately show ?thesis
      by (simp add: set_property_same)
  qed
  have "handlers ?fsm' s = filter (\<lambda>e. e \<noteq> h) (handlers fsm s)"
    by (simp add: handlers_update)
  moreover have "\<forall>s'. s' \<noteq> s \<longrightarrow> handlers ?fsm' s' = handlers fsm s'"
    by (simp add: handlers_update)
  moreover have "?fsm' = fsm\<lparr>transitions := transitions ?fsm'\<rparr>"
    by simp
  moreover have "h \<notin> set (handlers fsm s) \<and> engine_inv fsm \<longrightarrow> ?fsm' = fsm"
    using same by blast
  ultimately show ?thesis
    using r by blast
qed

text \<open>
  Claim C8 says that \<^verbatim>\<open>unregister(s, h)\<close>, for the wildcard key or a known state, removes
  the occurrences of \<open>h\<close> from the sequence of \<open>s\<close> and is a silent no-op when \<open>h\<close> is not
  there. The code at two tables: with a state named \<^verbatim>\<open>hasOwnProperty\<close>, \<^verbatim>\<open>off\<close> throws a
  \<^verbatim>\<open>TypeError\<close> for a known state and for the wildcard key alike; with a state named
  \<^verbatim>\<open>__proto__\<close>, under which handler 1 is registered, removing the absent handler 9 leaves
  the sequence empty.
\<close>

theorem C8_off_shadowed_or_emptied:
  "isValid shadow_engine ''a''
   \<and> (off shadow_engine ''a'' 1 :: nat js_error + (nat, nat) FSM) = Inl TypeError
   \<and> (off shadow_engine ANY 1 :: nat js_error + (nat, nat) FSM) = Inl TypeError
   \<and> isValid proto_engine ''__proto__''
   \<and> handlers proto_engine ''__proto__'' = [1]
   \<and> (off proto_engine ''__proto__'' 9 :: nat js_error + (nat, nat) FSM)
       = Inr (proto_engine\<lparr>transitions := (transitions proto_engine)\<lparr>prototypeArray := Some []\<rparr>\<rparr>)"
  by (simp add: off_def isValid_def hasOwnProperty_def get_property_def set_property_def
                handlers_def shadow_engine_eval proto_engine_eval ANY_def)

subsection \<open>C9: isValid\<close>

text \<open>
  Claim C9: for the engine constructed from a table, after any sequence of method calls,
  \<^verbatim>\<open>isValid(s)\<close> is true exactly when \<open>s\<close> is a key of the table; in particular it is false
  of the empty string and of the wildcard key unless the table has them as keys. The method
  is a function of the engine's known states alone and returns a truth value: it has no
  effect on the engine or the world.
\<close>

theorem C9_isValid:
  "(isValid (fst (perform_all sem esem calls (FSM_constructor table initialState, w))) s
      \<longleftrightarrow> s \<in> fst ` set table)
   \<and> ('''' \<notin> fst ` set table \<longrightarrow>
        \<not> isValid (fst (perform_all sem esem calls (FSM_constructor table initialState, w))) '''')
   \<and> (ANY \<notin> fst ` set table \<longrightarrow>
        \<not> isValid (fst (perform_all sem esem calls (FSM_constructor table initialState, w))) ANY)"
  by (simp add: isValid_known perform_all_knownStates FSM_constructor_def)

text \<open>With the table of the README.\<close>

theorem C9_witness:
  "isValid (fst (perform_all sample_sem sample_esem [On ''inReview'' 1, Emit ''inReview'' 0]
                   (FSM_constructor workflow ''draft'', []))) ''published''
   \<and> \<not> isValid (fst (perform_all sample_sem sample_esem [On ''inReview'' 1, Emit ''inReview'' 0]
                   (FSM_constructor workflow ''draft'', []))) ''nope''
   \<and> '''' \<notin> fst ` set workflow
   \<and> \<not> isValid (fst (perform_all sample_sem sample_esem [On ''inReview'' 1, Emit ''inReview'' 0]
                   (FSM_constructor workflow ''draft'', []))) ''''
   \<and> ANY \<notin> fst ` set workflow
   \<and> \<not> isValid (fst (perform_all sample_sem sample_esem [On ''inReview'' 1, Emit ''inReview'' 0]
                   (FSM_constructor workflow ''draft'', []))) ANY"
proof -
  have keys: "fst ` set workflow =
     {''draft'', ''inReview'', ''changesNeeded'', ''approved'', ''scheduled'', ''published''}"
    by (simp add: workflow_def)
  have a: "''published'' \<in> fst ` set workflow" unfolding keys by simp
  have b: "''nope'' \<notin> fst ` set workflow" unfolding keys by simp
  have c: "'''' \<notin> fst ` set workflow" unfolding keys by simp
  have d: "ANY \<notin> fst ` set workflow" unfolding keys by (simp add: ANY_def)
  note inst = C9_isValid [where sem = sample_sem and esem = sample_esem
      and calls = "[On ''inReview'' 1, Emit ''inReview'' 0]" and table = workflow
      and initialState = "''draft''" and w = "[]"]
  from inst [where s = "''published''"] inst [where s = "''nope''"] a b c d
  show ?thesis by blast
qed

subsection \<open>C10: the current state stays a known state\<close>

text \<open>
  Claim C10: for an engine constructed with an initial state that is a key of the table,
  after any finite sequence of \<^verbatim>\<open>on\<close>, \<^verbatim>\<open>off\<close>, \<^verbatim>\<open>onError\<close> and \<^verbatim>\<open>emit\<close> calls (rejected
  ones and ones whose handlers throw among them) the current state is a member of the
  known-state set; and the reason: whatever a dispatch does, the current state afterwards is
  the old one or the requested state, the latter only when the requested state has passed
  \<^verbatim>\<open>isValid\<close>.
\<close>

theorem C10_currentState_stays_known:
  assumes "initialState \<in> fst ` set table"
  shows "isValid (fst (perform_all sem esem calls (FSM_constructor table initialState, w)))
           (currentState (fst (perform_all sem esem calls (FSM_constructor table initialState, w))))
         \<and> (\<forall>fsm s args w0 c fsm' w' evs.
               emit sem esem fsm s args w0 = (c, fsm', w', evs) \<longrightarrow>
                 currentState fsm' = currentState fsm
                 \<or> (isValid fsm s \<and> currentState fsm' = s))"
proof
  from assms have "isValid (fst (FSM_constructor table initialState, w))
                     (currentState (fst (FSM_constructor table initialState, w)))"
    by (simp add: constructor_current_known)
  then show "isValid (fst (perform_all sem esem calls (FSM_constructor table initialState, w)))
           (currentState (fst (perform_all sem esem calls (FSM_constructor table initialState, w))))"
    by (rule perform_all_current_known)
  show "\<forall>fsm s args w0 c fsm' w' evs.
               emit sem esem fsm s args w0 = (c, fsm', w', evs) \<longrightarrow>
                 currentState fsm' = currentState fsm
                 \<or> (isValid fsm s \<and> currentState fsm' = s)"
    by (auto dest: emit_engine)
qed

text \<open>A sequence with a throwing handler, a rejected dispatch and accepted ones.\<close>

theorem C10_witness:
  "''draft'' \<in> fst ` set workflow
   \<and> isValid (fst (perform_all sample_sem sample_esem
                    [On ''inReview'' 13, Emit ''inReview'' 0, OnError 5, Emit ''nope'' 0,
                     Off ''inReview'' 13, Emit ''inReview'' 0, Emit ''draft'' 0]
                    (FSM_constructor workflow ''draft'', [])))
       (currentState (fst (perform_all sample_sem sample_esem
                    [On ''inReview'' 13, Emit ''inReview'' 0, OnError 5, Emit ''nope'' 0,
                     Off ''inReview'' 13, Emit ''inReview'' 0, Emit ''draft'' 0]
                    (FSM_constructor workflow ''draft'', []))))"
proof -
  have key: "''draft'' \<in> fst ` set workflow"
    by (simp add: workflow_def)
  with C10_currentState_stays_known
         [of "''draft''" workflow sample_sem sample_esem
             "[On ''inReview'' 13, Emit ''inReview'' 0, OnError 5, Emit ''nope'' 0,
               Off ''inReview'' 13, Emit ''inReview'' 0, Emit ''draft'' 0]" "[]"]
  show ?thesis by blast
qed

end
